theory Spec2Isabelle
  imports Complex_Main "HOL-Library.Log_Nat" "HOL-Library.Char_ord" "HOL-Library.List_Lexorder"
begin

section \<open>Step challenge tracker: the data and the entry store\<close>

text \<open>
  The program is one Streamlit script, \<^verbatim>\<open>app.py\<close>. Every run of the script reads the CSV
  file, possibly appends one row to it, reads it again and derives the leaderboards.

  Calendar dates are modelled by their proleptic Gregorian ordinal (what Python's
  \<^verbatim>\<open>date.toordinal()\<close> returns: 1 is 0001-01-01), so comparing two dates is comparing
  two integers and the day after \<open>d\<close> is \<open>d + 1\<close>. The text encoding of the CSV file is not
  modelled: a file is the table of its rows, and a date cell is either a date or a text
  that \<^verbatim>\<open>pd.to_datetime(..., errors='coerce')\<close> turns into NaT.
\<close>

type_synonym date = int

subsection \<open>Calendar arithmetic of \<^verbatim>\<open>datetime\<close>\<close>

definition is_leap :: "int \<Rightarrow> bool" where
  "is_leap y \<longleftrightarrow> y mod 4 = 0 \<and> (y mod 100 \<noteq> 0 \<or> y mod 400 = 0)"

definition days_before_year :: "int \<Rightarrow> int" where
  "days_before_year year =
     (let y = year - 1 in y * 365 + y div 4 - y div 100 + y div 400)"

definition days_in_month :: "int \<Rightarrow> int \<Rightarrow> int" where
  "days_in_month year month =
     (if month = 2 then (if is_leap year then 29 else 28)
      else if month = 4 \<or> month = 6 \<or> month = 9 \<or> month = 11 then 30 else 31)"

definition days_before_month :: "int \<Rightarrow> int \<Rightarrow> int" where
  "days_before_month year month = sum_list (map (days_in_month year) [1 .. month - 1])"

text \<open>\<^verbatim>\<open>datetime.date(year, month, day)\<close>, as its ordinal.\<close>

definition ymd2ord :: "int \<Rightarrow> int \<Rightarrow> int \<Rightarrow> date" where
  "ymd2ord year month day = days_before_year year + days_before_month year month + day"

text \<open>The year of an ordinal: the first component of \<^verbatim>\<open>_ord2ymd\<close>.\<close>

definition ord2year :: "date \<Rightarrow> int" where
  "ord2year ordinal =
     (let n = ordinal - 1;
          n400 = n div 146097; n = n mod 146097;
          n100 = n div 36524; n = n mod 36524;
          n4 = n div 1461; n = n mod 1461;
          n1 = n div 365;
          year = n400 * 400 + 1 + n100 * 100 + n4 * 4 + n1
      in if n1 = 4 \<or> n100 = 4 then year - 1 else year)"

definition isoweek1monday :: "int \<Rightarrow> date" where
  "isoweek1monday year =
     (let firstday = ymd2ord year 1 1;
          firstweekday = (firstday + 6) mod 7;
          week1monday = firstday - firstweekday
      in if firstweekday > 3 then week1monday + 7 else week1monday)"

text \<open>The ISO 8601 week number of a date: \<^verbatim>\<open>.dt.isocalendar().week\<close>.\<close>

definition isocalendar_week :: "date \<Rightarrow> int" where
  "isocalendar_week today =
     (let year = ord2year today;
          week = (today - isoweek1monday year) div 7
      in if week < 0 then (today - isoweek1monday (year - 1)) div 7 + 1
         else if week \<ge> 52 \<and> today \<ge> isoweek1monday (year + 1) then 1
         else week + 1)"

subsection \<open>Constants of the script\<close>

definition TEAM_GOAL :: int where
  "TEAM_GOAL = 500000"



subsection \<open>The data frame and the CSV file\<close>

text \<open>A row of the data frame, with the four columns of the script.\<close>

record entry =
  name :: string
  start_date :: date
  end_date :: date
  steps :: int

type_synonym dataframe = "entry list"

text \<open>
  A row of the file before \<^verbatim>\<open>load_data\<close> has parsed it: a date cell that does not parse is
  \<open>None\<close> (NaT after the coercion).
\<close>

record csv_row =
  row_name :: string
  row_start :: "date option"
  row_end :: "date option"
  row_steps :: int

text \<open>
  The file is absent (\<^verbatim>\<open>FileNotFoundError\<close>), has no columns at all
  (\<^verbatim>\<open>EmptyDataError\<close>), or holds a header and rows.
\<close>

datatype csv_file = Missing | No_Columns | Table "csv_row list"

definition dropna :: "csv_row list \<Rightarrow> dataframe" where
  "dropna rows =
     map (\<lambda>r. \<lparr>name = row_name r, start_date = the (row_start r),
                end_date = the (row_end r), steps = row_steps r\<rparr>)
       (filter (\<lambda>r. row_start r \<noteq> None \<and> row_end r \<noteq> None) rows)"

fun load_data :: "csv_file \<Rightarrow> dataframe" where
  "load_data Missing = []"
| "load_data No_Columns = []"
| "load_data (Table rows) = (if rows = [] then [] else dropna rows)"

definition to_csv :: "entry \<Rightarrow> csv_row" where
  "to_csv r = \<lparr>row_name = name r, row_start = Some (start_date r),
               row_end = Some (end_date r), row_steps = steps r\<rparr>"

definition save_data :: "dataframe \<Rightarrow> csv_file" where
  "save_data df = Table (map to_csv df)"

subsection \<open>Overlap of two date ranges\<close>

definition date_ranges_overlap :: "date \<Rightarrow> date \<Rightarrow> date \<Rightarrow> date \<Rightarrow> bool" where
  "date_ranges_overlap start1 end1 start2 end2 \<longleftrightarrow> max start1 start2 \<le> min end1 end2"

subsection \<open>Names\<close>

text \<open>
  \<^verbatim>\<open>str.lower\<close> and \<^verbatim>\<open>str.strip\<close> on the ASCII range; a name is a list of bytes here, and the
  case mapping of letters beyond ASCII is not modelled.
\<close>

definition lower_char :: "char \<Rightarrow> char" where
  "lower_char c =
     (let n = (of_char c :: nat) in if 65 \<le> n \<and> n \<le> 90 then char_of (n + 32) else c)"

definition lower :: "string \<Rightarrow> string" where
  "lower s = map lower_char s"



section \<open>Submitting an entry\<close>

text \<open>What the form shows after the submit button was pressed.\<close>

datatype message =
  InvalidRange      \<comment> \<open>"Start date cannot be after end date."\<close>
| OverlapConflict   \<comment> \<open>"Overlapping entry detected. Choose a non-overlapping date range."\<close>
| Accepted          \<comment> \<open>"Steps submitted successfully!"\<close>

text \<open>
  The body of \<^verbatim>\<open>if submitted:\<close>. It runs on the data frame loaded at the top of the script
  and returns the message together with the file as it is afterwards: only the accepted
  branch calls \<^verbatim>\<open>save_data\<close>.
\<close>

definition submit :: "csv_file \<Rightarrow> string \<Rightarrow> date \<Rightarrow> date \<Rightarrow> int \<Rightarrow> message \<times> csv_file" where
  "submit csv nm start_d end_d stps =
     (let df = load_data csv in
      if start_d > end_d then (InvalidRange, csv)
      else
        let user_df = filter (\<lambda>r. lower (name r) = lower nm) df;
            overlap_found =
              list_ex (\<lambda>r. date_ranges_overlap start_d end_d (start_date r) (end_date r)) user_df
        in if overlap_found then (OverlapConflict, csv)
           else
             let new_entry = \<lparr>name = nm, start_date = start_d, end_date = end_d, steps = stps\<rparr>
             in (Accepted, save_data (df @ [new_entry])))"




text \<open>Several runs of the script, one submission each, on the file the last one left.\<close>

fun submit_all :: "csv_file \<Rightarrow> (string \<times> date \<times> date \<times> int) list \<Rightarrow> csv_file" where
  "submit_all csv [] = csv"
| "submit_all csv ((nm, start_d, end_d, stps) # rest) =
     submit_all (snd (submit csv nm start_d end_d stps)) rest"


section \<open>Expanding the entries into days\<close>

subsection \<open>Floating point\<close>

text \<open>
  \<^verbatim>\<open>row['steps'] / len(dates)\<close> divides two Python integers and gives a float: the IEEE 754
  binary64 number nearest to the exact quotient, ties to the even significand. A float is
  modelled by the rational number it stands for. \<open>floor_log2 x\<close> is the binary exponent of
  a positive \<open>x\<close>, and \<open>float64\<close> rounds to 53 significant bits; exponents are not bounded
  here (a quotient of two 64-bit integers is far inside the range of normal numbers).
\<close>

definition rint :: "rat \<Rightarrow> int" where
  "rint x =
     (let f = \<lfloor>x\<rfloor>; r = x - of_int f
      in if r < 1 / 2 then f else if r > 1 / 2 then f + 1 else if even f then f else f + 1)"

definition floor_log2 :: "rat \<Rightarrow> int" where
  "floor_log2 x =
     (let (p, q) = quotient_of x; d = bitlen p - bitlen q
      in if 2 powi d \<le> x then d else d - 1)"

definition float64 :: "rat \<Rightarrow> rat" where
  "float64 x =
     (if x = 0 then 0
      else let ulp = 2 powi (floor_log2 \<bar>x\<bar> - 52) in of_int (rint (x / ulp)) * ulp)"

definition truediv :: "int \<Rightarrow> int \<Rightarrow> rat" where
  "truediv a b = float64 (of_int a / of_int b)"

subsection \<open>The expansion loop\<close>

text \<open>An element of the list \<^verbatim>\<open>exploded\<close>: the dictionary with keys name, date and steps.\<close>

record exploded_row =
  x_name :: string
  x_date :: date
  x_steps :: rat

text \<open>\<^verbatim>\<open>pd.date_range(start, end)\<close>: every day from start to end, none when start is later.\<close>

definition explode_dates :: "entry \<Rightarrow> date list" where
  "explode_dates row = [start_date row .. end_date row]"

definition explode_row :: "entry \<Rightarrow> exploded_row list" where
  "explode_row row =
     (let dates = explode_dates row
      in map (\<lambda>d. \<lparr>x_name = name row, x_date = d,
                    x_steps = truediv (steps row) (int (length dates))\<rparr>) dates)"

definition exploded :: "dataframe \<Rightarrow> exploded_row list" where
  "exploded df = concat (map explode_row df)"

section \<open>Aggregation\<close>

text \<open>
  A row of \<^verbatim>\<open>exploded_df\<close> once the week column is added and the steps column is rounded
  (\<^verbatim>\<open>.round().astype(int)\<close>, which rounds halves to the even neighbour).
\<close>

record frame_row =
  f_name :: string
  f_date :: date
  f_steps :: int
  week :: int

definition exploded_df :: "exploded_row list \<Rightarrow> frame_row list" where
  "exploded_df xs =
     map (\<lambda>x. \<lparr>f_name = x_name x, f_date = x_date x, f_steps = rint (x_steps x),
                week = isocalendar_week (x_date x)\<rparr>) xs"

text \<open>
  \<^verbatim>\<open>groupby(key)['steps'].sum().reset_index()\<close>: one row per key, keys in ascending order,
  each with the sum of the steps of its group.
\<close>

definition groupby_sum :: "(frame_row \<Rightarrow> 'k::linorder) \<Rightarrow> frame_row list \<Rightarrow> ('k \<times> int) list" where
  "groupby_sum key rows =
     map (\<lambda>k. (k, sum_list (map f_steps (filter (\<lambda>r. key r = k) rows))))
       (sort (remdups (map key rows)))"

text \<open>
  \<^verbatim>\<open>sort_values(by='steps', ascending=False)\<close>. Rows with equal steps keep their order here;
  nothing below depends on the order among them.
\<close>

definition sort_values :: "('k \<times> int) list \<Rightarrow> ('k \<times> int) list" where
  "sort_values lb = sort_key (\<lambda>(k, s). - s) lb"

definition weeks_available :: "frame_row list \<Rightarrow> int list" where
  "weeks_available rows = sort (remdups (map week rows))"


definition monthly_df :: "frame_row list \<Rightarrow> (string \<times> int) list" where
  "monthly_df rows = sort_values (groupby_sum f_name rows)"

definition total_steps :: "frame_row list \<Rightarrow> int" where
  "total_steps rows = sum_list (map f_steps rows)"

definition daily_totals :: "frame_row list \<Rightarrow> (date \<times> int) list" where
  "daily_totals rows = groupby_sum f_date rows"


text \<open>
  What the page shows below the form. The script reads the file again, expands it, and
  only \<^verbatim>\<open>if exploded:\<close> computes the views; otherwise it shows the notice
  "No step data available yet." and nothing else. The progress metric is the text
  \<^verbatim>\<open>f"{int(total_steps)} / {TEAM_GOAL} steps"\<close>, kept as the pair of its two numbers.
\<close>

record dashboard =
  weeks :: "int list"
  monthly :: "(string \<times> int) list"
  team_progress :: "int \<times> int"
  daily :: "(date \<times> int) list"

datatype view = No_Step_Data | Dashboard dashboard

definition render :: "csv_file \<Rightarrow> view" where
  "render csv =
     (let df = load_data csv; ex = exploded df
      in if ex = [] then No_Step_Data
         else
           let rows = exploded_df ex
           in Dashboard \<lparr>weeks = weeks_available rows, monthly = monthly_df rows,
                         team_progress = (total_steps rows, TEAM_GOAL),
                         daily = daily_totals rows\<rparr>)"

section \<open>Properties of the entry store\<close>

subsection \<open>Saving and loading\<close>

lemma dropna_to_csv: "dropna (map to_csv df) = df"
  by (induction df) (simp_all add: dropna_def to_csv_def)

lemma load_data_save_data: "load_data (save_data df) = df"
  by (auto simp add: save_data_def dropna_to_csv)

text \<open>The three outcomes of a submission, with the tests written on the loaded rows.\<close>

lemma submit_cases:
  "submit csv nm s e st =
     (if e < s then (InvalidRange, csv)
      else if \<exists>r \<in> set (load_data csv). lower (name r) = lower nm \<and>
                date_ranges_overlap s e (start_date r) (end_date r)
      then (OverlapConflict, csv)
      else (Accepted,
            save_data (load_data csv @ [\<lparr>name = nm, start_date = s, end_date = e, steps = st\<rparr>])))"
  by (auto simp add: submit_def Let_def list_ex_iff)


subsection \<open>The overlap test\<close>


lemma date_ranges_overlap_shared_day:
  "date_ranges_overlap s1 e1 s2 e2 \<longleftrightarrow> (\<exists>d. s1 \<le> d \<and> d \<le> e1 \<and> s2 \<le> d \<and> d \<le> e2)"
proof
  assume "date_ranges_overlap s1 e1 s2 e2"
  then have "s1 \<le> max s1 s2 \<and> max s1 s2 \<le> e1 \<and> s2 \<le> max s1 s2 \<and> max s1 s2 \<le> e2"
    by (simp add: date_ranges_overlap_def)
  then show "\<exists>d. s1 \<le> d \<and> d \<le> e1 \<and> s2 \<le> d \<and> d \<le> e2" by blast
next
  assume "\<exists>d. s1 \<le> d \<and> d \<le> e1 \<and> s2 \<le> d \<and> d \<le> e2"
  then show "date_ranges_overlap s1 e1 s2 e2"
    by (auto simp add: date_ranges_overlap_def)
qed

text \<open>
  C5. The overlap test of two inclusive ranges holds exactly when
  \<open>max start1 start2 \<le> min end1 end2\<close>, which is exactly when the ranges share a day; two
  ranges that touch at an endpoint (one ends on the day the other starts) overlap.
\<close>

theorem date_ranges_overlap_inclusive:
  "(date_ranges_overlap s1 e1 s2 e2 \<longleftrightarrow> max s1 s2 \<le> min e1 e2) \<and>
   (date_ranges_overlap s1 e1 s2 e2 \<longleftrightarrow> (\<exists>d. s1 \<le> d \<and> d \<le> e1 \<and> s2 \<le> d \<and> d \<le> e2)) \<and>
   (s1 \<le> e1 \<and> s2 \<le> e2 \<and> (e1 = s2 \<or> e2 = s1) \<longrightarrow> date_ranges_overlap s1 e1 s2 e2)"
proof -
  have "date_ranges_overlap s1 e1 s2 e2" if "s1 \<le> e1" "s2 \<le> e2" "e1 = s2 \<or> e2 = s1"
    using that by (auto simp add: date_ranges_overlap_def)
  then show ?thesis
    using date_ranges_overlap_shared_day[of s1 e1 s2 e2]
    by (simp add: date_ranges_overlap_def)
qed

theorem date_ranges_overlap_inclusive_witness:
  "date_ranges_overlap (ymd2ord 2025 7 1) (ymd2ord 2025 7 3) (ymd2ord 2025 7 3) (ymd2ord 2025 7 5)"
proof -
  have "ymd2ord 2025 7 1 \<le> ymd2ord 2025 7 3 \<and> ymd2ord 2025 7 3 \<le> ymd2ord 2025 7 5"
    by code_simp
  with date_ranges_overlap_inclusive
         [of "ymd2ord 2025 7 1" "ymd2ord 2025 7 3" "ymd2ord 2025 7 3" "ymd2ord 2025 7 5"]
  show ?thesis by blast
qed

subsection \<open>Rejecting a range that ends before it starts\<close>

lemma ordered_submit:
  assumes "\<forall>r \<in> set (load_data csv). start_date r \<le> end_date r"
  shows "\<forall>r \<in> set (load_data (snd (submit csv nm s e st))). start_date r \<le> end_date r"
  using assms by (auto simp add: submit_cases load_data_save_data)

lemma ordered_submit_all:
  assumes "\<forall>r \<in> set (load_data csv). start_date r \<le> end_date r"
  shows "\<forall>r \<in> set (load_data (submit_all csv subs)). start_date r \<le> end_date r"
  using assms
proof (induction subs arbitrary: csv)
  case Nil
  then show ?case by simp
next
  case (Cons sub subs)
  obtain nm s e st where sub: "sub = (nm, s, e, st)" by (cases sub)
  from Cons.prems have "\<forall>r \<in> set (load_data (snd (submit csv nm s e st))). start_date r \<le> end_date r"
    by (rule ordered_submit)
  then show ?case unfolding sub submit_all.simps by (rule Cons.IH)
qed

text \<open>
  C6. A submission is answered with \<open>InvalidRange\<close> exactly when its start date is after
  its end date, and then the file is left as it was; so when every stored row has
  \<open>start_date \<le> end_date\<close>, the same holds after any number of submissions.
\<close>

theorem submit_invalid_range:
  "(fst (submit csv nm start_d end_d stps) = InvalidRange \<longleftrightarrow> end_d < start_d) \<and>
   (end_d < start_d \<longrightarrow> snd (submit csv nm start_d end_d stps) = csv) \<and>
   ((\<forall>r \<in> set (load_data csv). start_date r \<le> end_date r) \<longrightarrow>
    (\<forall>r \<in> set (load_data (submit_all csv subs)). start_date r \<le> end_date r))"
  using ordered_submit_all[of csv subs] by (simp add: submit_cases)

theorem submit_invalid_range_witness:
  "submit (Table [\<lparr>row_name = ''Al'', row_start = Some (ymd2ord 2025 7 1),
                    row_end = Some (ymd2ord 2025 7 2), row_steps = 100\<rparr>])
     ''Bo'' (ymd2ord 2025 7 5) (ymd2ord 2025 7 3) 10 =
   (InvalidRange, Table [\<lparr>row_name = ''Al'', row_start = Some (ymd2ord 2025 7 1),
                            row_end = Some (ymd2ord 2025 7 2), row_steps = 100\<rparr>]) \<and>
   list_all (\<lambda>r. start_date r \<le> end_date r)
     (load_data (submit_all
        (Table [\<lparr>row_name = ''Al'', row_start = Some (ymd2ord 2025 7 1),
                  row_end = Some (ymd2ord 2025 7 2), row_steps = 100\<rparr>])
        [(''Bo'', ymd2ord 2025 7 5, ymd2ord 2025 7 3, 10),
         (''Bo'', ymd2ord 2025 7 3, ymd2ord 2025 7 5, 10)]))"
proof -
  let ?csv = "Table [\<lparr>row_name = ''Al'', row_start = Some (ymd2ord 2025 7 1),
                      row_end = Some (ymd2ord 2025 7 2), row_steps = 100\<rparr>]"
  let ?subs = "[(''Bo'', ymd2ord 2025 7 5, ymd2ord 2025 7 3, 10),
                (''Bo'', ymd2ord 2025 7 3, ymd2ord 2025 7 5, 10 :: int)]"
  have late: "ymd2ord 2025 7 3 < ymd2ord 2025 7 5" by code_simp
  have stored: "\<forall>r \<in> set (load_data ?csv). start_date r \<le> end_date r" by code_simp
  note inst = submit_invalid_range[of ?csv "''Bo''" "ymd2ord 2025 7 5" "ymd2ord 2025 7 3" 10 ?subs]
  from inst late have "fst (submit ?csv ''Bo'' (ymd2ord 2025 7 5) (ymd2ord 2025 7 3) 10) = InvalidRange"
    and "snd (submit ?csv ''Bo'' (ymd2ord 2025 7 5) (ymd2ord 2025 7 3) 10) = ?csv"
    by blast+
  moreover from inst stored
  have "\<forall>r \<in> set (load_data (submit_all ?csv ?subs)). start_date r \<le> end_date r"
    by blast
  ultimately show ?thesis by (simp add: list_all_iff prod_eq_iff)
qed

subsection \<open>An accepted submission appends one row\<close>



subsection \<open>No two ranges of a participant overlap\<close>







subsection \<open>Stored ranges lie in the allowed month\<close>




section \<open>Properties of the expansion\<close>

subsection \<open>Rounding to the nearest integer, halves to even\<close>

lemma rint_of_int: "rint (of_int k) = k"
  by (simp add: rint_def)




lemma rint_half: "rint (of_int k + 1 / 2) = (if even k then k else k + 1)"
proof -
  have "\<lfloor>(of_int k :: rat) + 1 / 2\<rfloor> = k" by linarith
  then show ?thesis by (simp add: rint_def)
qed

subsection \<open>The binary exponent\<close>

lemma of_int_bitlen_bounds:
  assumes "0 < p"
  shows "(2::rat) powi (bitlen p - 1) \<le> of_int p" and "of_int p < (2::rat) powi bitlen p"
proof -
  have b: "1 \<le> bitlen p"
    using assms bitlen_nonneg[of p] bitlen_eq_zero_iff[of p] by linarith
  have "(2::int) ^ nat (bitlen p - 1) \<le> p" using bitlen_bounds[OF assms] by simp
  then have "(of_int ((2::int) ^ nat (bitlen p - 1)) :: rat) \<le> of_int p"
    by (simp only: of_int_le_iff)
  then show "(2::rat) powi (bitlen p - 1) \<le> of_int p" using b by (simp add: power_int_def)
  have "p < (2::int) ^ nat (bitlen p)" using bitlen_bounds[OF assms] by simp
  then have "(of_int p :: rat) < of_int ((2::int) ^ nat (bitlen p))"
    by (simp only: of_int_less_iff)
  then show "of_int p < (2::rat) powi bitlen p" using b by (simp add: power_int_def)
qed

lemma floor_log2_bounds:
  assumes "0 < x"
  shows "2 powi floor_log2 x \<le> x" and "x < 2 powi (floor_log2 x + 1)"
proof -
  obtain p q where pq: "quotient_of x = (p, q)" by (cases "quotient_of x")
  have q: "0 < q" using pq by (rule quotient_of_denom_pos)
  have x: "x = of_int p / of_int q" using pq by (rule quotient_of_div)
  have p: "0 < p" using assms q x by (simp add: zero_less_divide_iff)
  let ?d = "bitlen p - bitlen q"
  have qpos: "(0::rat) < of_int q" using q by simp
  have lo: "(2::rat) powi (?d - 1) \<le> x"
  proof -
    have "(2::rat) powi (?d - 1) * of_int q \<le> 2 powi (?d - 1) * 2 powi bitlen q"
      using of_int_bitlen_bounds(2)[OF q] by (intro mult_left_mono) simp_all
    also have "\<dots> = 2 powi (bitlen p - 1)"
      by (simp add: power_int_add [symmetric])
    also have "\<dots> \<le> of_int p" using p by (rule of_int_bitlen_bounds(1))
    finally show ?thesis using qpos by (simp add: x pos_le_divide_eq)
  qed
  have hi: "x < (2::rat) powi (?d + 1)"
  proof -
    have "of_int p < (2::rat) powi bitlen p" using p by (rule of_int_bitlen_bounds(2))
    also have "\<dots> = 2 powi (?d + 1) * 2 powi (bitlen q - 1)"
      by (simp add: power_int_add [symmetric])
    also have "\<dots> \<le> 2 powi (?d + 1) * of_int q"
      using of_int_bitlen_bounds(1)[OF q] by (intro mult_left_mono) simp_all
    finally show ?thesis using qpos by (simp add: x pos_divide_less_eq)
  qed
  have fl: "floor_log2 x = (if 2 powi ?d \<le> x then ?d else ?d - 1)"
    by (simp add: floor_log2_def pq)
  show "2 powi floor_log2 x \<le> x" using lo by (simp add: fl)
  show "x < 2 powi (floor_log2 x + 1)" using hi by (auto simp add: fl not_le)
qed

lemma floor_log2_less:
  assumes "0 < x" and "x < 2 ^ n"
  shows "floor_log2 x < int n"
proof -
  have "(2::rat) powi int n = 2 ^ n" by simp
  then have "(2::rat) powi floor_log2 x < 2 powi int n"
    using floor_log2_bounds(1)[OF assms(1)] assms(2) by simp
  then show ?thesis by (rule power_int_le_imp_less_exp[rotated]) simp_all
qed

subsection \<open>Rounding to a float\<close>

lemma float64_pos:
  "0 < x \<Longrightarrow> float64 x =
     of_int (rint (x / 2 powi (floor_log2 x - 52))) * 2 powi (floor_log2 x - 52)"
  by (simp add: float64_def Let_def)


text \<open>
  A positive number below \<open>2\<^sup>5\<^sup>2 * 2\<^sup>m\<close> that is a whole multiple of \<open>2\<^sup>m / 2\<close> is a float:
  with \<open>m = 0\<close> these are the halves below \<open>2\<^sup>5\<^sup>2\<close>, with \<open>m = 1\<close> the integers below \<open>2\<^sup>5\<^sup>3\<close>.
\<close>

lemma float64_exact:
  assumes "0 < x" and "x < 2 ^ (52 + m)" and "2 * x = of_int h * 2 ^ m"
  shows "float64 x = x"
proof -
  define e where "e = floor_log2 x"
  define ulp :: rat where "ulp = 2 powi (e - 52)"
  have e: "e < 52 + int m"
    using floor_log2_less[OF assms(1,2)] by (simp add: e_def)
  define k where "k = nat (51 + int m - e)"
  have ulp_pos: "0 < ulp" by (simp add: ulp_def)
  have "ulp * 2 ^ k = 2 powi (e - 52) * 2 powi int k" by (simp add: ulp_def)
  also have "\<dots> = 2 powi (int m - 1)"
    using e by (simp add: power_int_add [symmetric] k_def)
  also have "\<dots> = 2 ^ m / 2" by (simp add: power_int_diff)
  finally have u: "ulp * 2 ^ k = 2 ^ m / 2" .
  have "x = of_int h * (2 ^ m / 2)" using assms(3) by simp
  also have "\<dots> = of_int (h * 2 ^ k) * ulp" by (simp add: u [symmetric])
  finally have "x / ulp = of_int (h * 2 ^ k)" using ulp_pos by simp
  then have "of_int (rint (x / ulp)) = x / ulp" by (simp only: rint_of_int)
  then show ?thesis
    using assms(1) ulp_pos by (simp add: float64_pos ulp_def e_def)
qed

lemma float64_integer:
  assumes "0 \<le> k" and "k \<le> 2 ^ 53"
  shows "float64 (of_int k) = of_int k"
proof -
  consider "k = 0" | "k = 2 ^ 53" | "0 < k" "k < 2 ^ 53" using assms by linarith
  then show ?thesis
  proof cases
    case 1
    then show ?thesis by (simp add: float64_def)
  next
    case 2
    have "(2::rat) ^ 53 < 2 ^ (52 + 2)" by simp
    moreover have "2 * (2::rat) ^ 53 = of_int (2 ^ 52) * 2 ^ 2" by simp
    ultimately have "float64 (2 ^ 53) = 2 ^ 53"
      by (intro float64_exact[where m = 2 and h = "2 ^ 52"]) simp_all
    then show ?thesis using 2 by simp
  next
    case 3
    from 3(2) have "(of_int k :: rat) < of_int (2 ^ 53)" by (simp only: of_int_less_iff)
    then have "(of_int k :: rat) < 2 ^ (52 + 1)" by simp
    moreover have "2 * (of_int k :: rat) = of_int k * 2 ^ 1" by simp
    moreover have "(0::rat) < of_int k" using 3(1) by simp
    ultimately show ?thesis by (intro float64_exact[where m = 1 and h = k])
  qed
qed




lemma truediv_one: "0 \<le> s \<Longrightarrow> s \<le> 2 ^ 53 \<Longrightarrow> truediv s 1 = of_int s"
  using float64_integer[of s] by (simp add: truediv_def)

subsection \<open>One record per day\<close>

lemma explode_row_eq:
  "explode_row row =
     map (\<lambda>d. \<lparr>x_name = name row, x_date = d,
                  x_steps = truediv (steps row) (int (nat (end_date row - start_date row + 1)))\<rparr>)
       [start_date row .. end_date row]"
  by (simp add: explode_row_def explode_dates_def Let_def)

text \<open>
  C2, with the range of the steps made explicit. For a row with \<open>start_date \<le> end_date\<close> the expansion has exactly one
  record per day from the start to the end, \<open>end_date - start_date + 1\<close> of them, each with
  the row's name and the float \<^verbatim>\<open>steps / day_count\<close>. When the row covers a single day and
  its steps are between 0 and \<open>2\<^sup>5\<^sup>3\<close>, the one record carries exactly the row's steps.
\<close>

theorem explode_row_days:
  assumes "start_date row \<le> end_date row"
  shows "map x_date (explode_row row) = [start_date row .. end_date row] \<and>
         int (length (explode_row row)) = end_date row - start_date row + 1 \<and>
         (\<forall>x \<in> set (explode_row row).
            x_name x = name row \<and>
            x_steps x = truediv (steps row) (end_date row - start_date row + 1)) \<and>
         (start_date row = end_date row \<and> 0 \<le> steps row \<and> steps row \<le> 2 ^ 53 \<longrightarrow>
            explode_row row =
              [\<lparr>x_name = name row, x_date = start_date row, x_steps = of_int (steps row)\<rparr>])"
proof -
  have n: "int (nat (end_date row - start_date row + 1)) = end_date row - start_date row + 1"
    using assms by simp
  show ?thesis
    using assms by (auto simp add: explode_row_eq n comp_def truediv_one)
qed

theorem explode_row_days_witness:
  "explode_row \<lparr>name = ''Bob'', start_date = ymd2ord 2025 7 10, end_date = ymd2ord 2025 7 10,
                 steps = 9999\<rparr> =
     [\<lparr>x_name = ''Bob'', x_date = ymd2ord 2025 7 10, x_steps = 9999\<rparr>] \<and>
   map x_date (explode_row \<lparr>name = ''Al'', start_date = ymd2ord 2025 7 1,
                             end_date = ymd2ord 2025 7 3, steps = 300\<rparr>) =
     [ymd2ord 2025 7 1 .. ymd2ord 2025 7 3] \<and>
   int (length (explode_row \<lparr>name = ''Al'', start_date = ymd2ord 2025 7 1,
                              end_date = ymd2ord 2025 7 3, steps = 300\<rparr>)) = 3"
proof -
  let ?bob = "\<lparr>name = ''Bob'', start_date = ymd2ord 2025 7 10, end_date = ymd2ord 2025 7 10,
                steps = 9999\<rparr>"
  let ?al = "\<lparr>name = ''Al'', start_date = ymd2ord 2025 7 1, end_date = ymd2ord 2025 7 3,
               steps = 300\<rparr>"
  have "start_date ?bob \<le> end_date ?bob" by simp
  from explode_row_days[OF this]
  have bob: "explode_row ?bob =
      [\<lparr>x_name = ''Bob'', x_date = ymd2ord 2025 7 10, x_steps = 9999\<rparr>]"
    by simp
  have "start_date ?al \<le> end_date ?al" by code_simp
  from explode_row_days[OF this]
  have al: "map x_date (explode_row ?al) = [ymd2ord 2025 7 1 .. ymd2ord 2025 7 3]"
    "int (length (explode_row ?al)) = ymd2ord 2025 7 3 - ymd2ord 2025 7 1 + 1"
    by simp_all
  have "ymd2ord 2025 7 3 - ymd2ord 2025 7 1 + 1 = 3" by code_simp
  with bob al show ?thesis by simp
qed

text \<open>
  Without the bound C2 fails: take a single-day row of \<open>2\<^sup>5\<^sup>3 + 1\<close> steps: the float nearest to
  that number is \<open>2\<^sup>5\<^sup>3\<close>, and this is what the record carries.
\<close>

theorem explode_row_days_counterexample:
  "map x_steps (explode_row \<lparr>name = ''Al'', start_date = ymd2ord 2025 7 1,
                              end_date = ymd2ord 2025 7 1, steps = 9007199254740993\<rparr>) =
     [9007199254740992] \<and>
   map x_steps (explode_row \<lparr>name = ''Al'', start_date = ymd2ord 2025 7 1,
                              end_date = ymd2ord 2025 7 1, steps = 9007199254740993\<rparr>) \<noteq>
     [of_int 9007199254740993]"
  by code_simp

subsection \<open>The rounded days of one entry add up to about its steps\<close>





subsection \<open>Halves round to the even neighbour\<close>

text \<open>
  C10. A day record whose float share is exactly halfway between the integers \<open>k\<close> and
  \<open>k + 1\<close> gets the even one of the two as its rounded steps.
\<close>

theorem round_half_to_even:
  assumes "i < length xs" and "x_steps (xs ! i) = of_int k + 1 / 2"
  shows "f_steps (exploded_df xs ! i) = (if even k then k else k + 1)"
  using assms by (simp add: exploded_df_def rint_half)

theorem round_half_to_even_witness:
  "f_steps (exploded_df (explode_row
      \<lparr>name = ''Al'', start_date = ymd2ord 2025 7 1, end_date = ymd2ord 2025 7 2,
        steps = 5\<rparr>) ! 0) = 2 \<and>
   f_steps (exploded_df (explode_row
      \<lparr>name = ''Al'', start_date = ymd2ord 2025 7 1, end_date = ymd2ord 2025 7 2,
        steps = 7\<rparr>) ! 1) = 4"
proof -
  let ?five = "explode_row \<lparr>name = ''Al'', start_date = ymd2ord 2025 7 1,
                             end_date = ymd2ord 2025 7 2, steps = 5\<rparr>"
  let ?seven = "explode_row \<lparr>name = ''Al'', start_date = ymd2ord 2025 7 1,
                              end_date = ymd2ord 2025 7 2, steps = 7\<rparr>"
  have "0 < length ?five" "x_steps (?five ! 0) = of_int 2 + 1 / 2" by code_simp+
  from round_half_to_even[OF this] have five: "f_steps (exploded_df ?five ! 0) = 2" by simp
  have "1 < length ?seven" "x_steps (?seven ! 1) = of_int 3 + 1 / 2" by code_simp+
  from round_half_to_even[OF this] have "f_steps (exploded_df ?seven ! 1) = 4" by simp
  with five show ?thesis by simp
qed

section \<open>Properties of the aggregation\<close>

subsection \<open>Leaderboards\<close>








subsection \<open>The page of an empty store\<close>

text \<open>
  C8, for the page as the script renders it. When the file is missing, has no columns, or has only rows whose dates do
  not parse (none at all included), no row is loaded and no day record exists; the page then
  shows the notice "No step data available yet." and neither the daily totals nor the team
  progress. The two expressions themselves, on the empty list of records, are the empty
  sequence and 0 steps against the goal of 500000.
\<close>

theorem render_empty_store:
  assumes "csv = Missing \<or> csv = No_Columns \<or>
           (\<exists>rows. csv = Table rows \<and> (\<forall>r \<in> set rows. row_start r = None \<or> row_end r = None))"
  shows "load_data csv = [] \<and> exploded (load_data csv) = [] \<and> render csv = No_Step_Data \<and>
         daily_totals (exploded_df (exploded (load_data csv))) = [] \<and>
         (total_steps (exploded_df (exploded (load_data csv))), TEAM_GOAL) = (0, 500000)"
proof -
  have "load_data csv = []"
    using assms by (auto simp add: dropna_def filter_empty_conv)
  then show ?thesis
    by (simp add: render_def exploded_def exploded_df_def daily_totals_def groupby_sum_def
          total_steps_def TEAM_GOAL_def)
qed

theorem render_empty_store_witness:
  "render (Table [\<lparr>row_name = ''Al'', row_start = None, row_end = Some (ymd2ord 2025 7 2),
                    row_steps = 100\<rparr>]) = No_Step_Data \<and>
   load_data (Table [\<lparr>row_name = ''Al'', row_start = None, row_end = Some (ymd2ord 2025 7 2),
                       row_steps = 100\<rparr>]) = []"
proof -
  let ?rows = "[\<lparr>row_name = ''Al'', row_start = None, row_end = Some (ymd2ord 2025 7 2),
                  row_steps = 100\<rparr>]"
  have "\<forall>r \<in> set ?rows. row_start r = None \<or> row_end r = None" by simp
  then have "Table ?rows = Missing \<or> Table ?rows = No_Columns \<or>
      (\<exists>rows. Table ?rows = Table rows \<and> (\<forall>r \<in> set rows. row_start r = None \<or> row_end r = None))"
    by blast
  from render_empty_store[OF this] show ?thesis by blast
qed

text \<open>
  On the missing file the page has no team progress of
  \<open>(0, 500000)\<close> and no empty sequence of daily totals to show, it shows the notice only.
\<close>

theorem render_empty_store_counterexample:
  "render Missing = No_Step_Data \<and>
   render Missing \<noteq>
     Dashboard \<lparr>weeks = [], monthly = [], team_progress = (0, 500000), daily = []\<rparr>"
  by (simp add: render_def exploded_def)

end
